theory Spec2Isabelle
  imports Main "HOL-Library.Sublist"
begin

section \<open>Data model\<close>

text \<open>
  \<^verbatim>\<open>interface Bookmark\<close> of \<^verbatim>\<open>BookmarkList.tsx\<close> (lines 7-13). All five fields are
  TypeScript strings. The field \<^verbatim>\<open>id\<close> is written \<open>id_bm\<close> because \<open>id\<close> is the
  identity function of HOL.
\<close>

record bookmark =
  id_bm :: string
  user_id :: string
  title :: string
  url :: string
  created_at :: string

text \<open>
  The payload of a \<^verbatim>\<open>postgres_changes\<close> event is a union discriminated by
  \<^verbatim>\<open>eventType\<close>. The handler reads \<^verbatim>\<open>payload.new\<close> of an INSERT and of an UPDATE and
  only \<^verbatim>\<open>payload.old.id\<close> of a DELETE.
\<close>

datatype payload =
  INSERT bookmark
  | DELETE string
  | UPDATE bookmark

section \<open>The change handler of \<^verbatim>\<open>BookmarkList.tsx\<close>\<close>

text \<open>
  Lines 76-81, the updater handed to \<^verbatim>\<open>setBookmarks\<close> on INSERT:
  \<^verbatim>\<open>const exists = prev.some(b => b.id === payload.new.id)
  if (exists) return prev
  return [payload.new as Bookmark, ...prev]\<close>
\<close>

definition applyAdded :: "bookmark \<Rightarrow> bookmark list \<Rightarrow> bookmark list" where
  "applyAdded new prev =
     (let exists = list_ex (\<lambda>b. id_bm b = id_bm new) prev
      in if exists then prev else new # prev)"

text \<open>
  Line 84, the updater on DELETE:
  \<^verbatim>\<open>prev.filter((b) => b.id !== payload.old.id)\<close>
\<close>

definition applyRemoved :: "string \<Rightarrow> bookmark list \<Rightarrow> bookmark list" where
  "applyRemoved old_id prev = filter (\<lambda>b. id_bm b \<noteq> old_id) prev"

text \<open>
  Lines 87-89, the updater on UPDATE:
  \<^verbatim>\<open>prev.map((b) => (b.id === payload.new.id ? payload.new as Bookmark : b))\<close>
\<close>

definition applyReplaced :: "bookmark \<Rightarrow> bookmark list \<Rightarrow> bookmark list" where
  "applyReplaced new prev = map (\<lambda>b. if id_bm b = id_bm new then new else b) prev"

text \<open>Lines 71-91: the callback registered for \<^verbatim>\<open>postgres_changes\<close>.\<close>

fun on_postgres_changes :: "payload \<Rightarrow> bookmark list \<Rightarrow> bookmark list" where
  "on_postgres_changes (INSERT new) prev = applyAdded new prev"
| "on_postgres_changes (DELETE old_id) prev = applyRemoved old_id prev"
| "on_postgres_changes (UPDATE new) prev = applyReplaced new prev"

text \<open>
  Events are handled one at a time, each to completion, in the order of delivery:
  the held sequence after a run of events is the left fold of the handler.
\<close>

definition deliver :: "payload list \<Rightarrow> bookmark list \<Rightarrow> bookmark list" where
  "deliver events prev = foldl (\<lambda>s p. on_postgres_changes p s) prev events"

text \<open>Concrete records used by the examples below.\<close>

definition bm :: "string \<Rightarrow> string \<Rightarrow> bookmark" where
  "bm i t = \<lparr>id_bm = i, user_id = ''u1'', title = t, url = ''https://example.com'',
             created_at = ''2024-01-01''\<rparr>"

section \<open>The initial load: \<^verbatim>\<open>fetchBookmarks\<close>\<close>

text \<open>
  The Supabase client is outside the repository. The model takes what it answers as a
  parameter: the identity \<^verbatim>\<open>auth.getUser()\<close> resolves to (\<open>None\<close> for \<^verbatim>\<open>null\<close>), the
  answer to a select built with \<^verbatim>\<open>from/select/eq/order\<close>, and the error, if any, of an
  insert, update or delete.
\<close>

record user =
  id_usr :: string

record postgrest_error =
  message :: string

record query =
  from_table :: string
  select_columns :: string
  eq_filter :: "string \<times> string"
  order_column :: string
  ascending :: bool

record query_result =
  data :: "bookmark list option"
  fetchError :: "postgrest_error option"

datatype mutation =
  InsertRow string string string
  | UpdateRow string string string
  | DeleteRow string

record supabase_client =
  getUser :: "user option"
  run_query :: "query \<Rightarrow> query_result"
  run_mutation :: "mutation \<Rightarrow> postgrest_error option"

text \<open>The three \<^verbatim>\<open>useState\<close> cells of \<^verbatim>\<open>BookmarkList\<close> (lines 16-18).\<close>

record list_state =
  bookmarks :: "bookmark list"
  loading :: bool
  error :: string

text \<open>
  Lines 34-38, the query that \<^verbatim>\<open>fetchBookmarks\<close> builds for the user \<open>u\<close>:
  \<^verbatim>\<open>.from('bookmarks').select('*').eq('user_id', user.id)
  .order('created_at', { ascending: false })\<close>
\<close>

definition bookmarks_query :: "user \<Rightarrow> query" where
  "bookmarks_query u =
     \<lparr>from_table = ''bookmarks'', select_columns = ''*'',
      eq_filter = (''user_id'', id_usr u),
      order_column = ''created_at'', ascending = False\<rparr>"

text \<open>
  Lines 22-48. The state it returns is the one after the last \<^verbatim>\<open>set...\<close> call of the
  path taken; \<^verbatim>\<open>data || []\<close> is \<open>[]\<close> for \<^verbatim>\<open>null\<close> and \<^verbatim>\<open>data\<close> otherwise (an empty
  array is truthy).
\<close>

definition fetchBookmarks :: "supabase_client \<Rightarrow> list_state \<Rightarrow> list_state" where
  "fetchBookmarks supabase st =
     (let st1 = st\<lparr>loading := True, error := ''''\<rparr>
      in case getUser supabase of
           None \<Rightarrow> st1\<lparr>error := ''Not authenticated'', loading := False\<rparr>
         | Some u \<Rightarrow>
             (let res = run_query supabase (bookmarks_query u)
              in case fetchError res of
                   Some e \<Rightarrow>
                     st1\<lparr>error := ''Failed to load bookmarks: '' @ message e,
                         loading := False\<rparr>
                 | None \<Rightarrow>
                     st1\<lparr>bookmarks := (case data res of None \<Rightarrow> [] | Some d \<Rightarrow> d),
                         loading := False\<rparr>))"

text \<open>
  Lines 114-179, what \<^verbatim>\<open>BookmarkList\<close> renders. The error view shows the text of
  \<^verbatim>\<open>error\<close> and a Retry button whose \<^verbatim>\<open>onClick\<close> is \<^verbatim>\<open>fetchBookmarks\<close>; the list view
  shows a Refresh button with the same handler and one \<^verbatim>\<open>BookmarkItem\<close> per record. A
  string is truthy when it is not empty.
\<close>

datatype view =
  LoadingView
  | ErrorView string
  | EmptyView
  | ListView "bookmark list"

definition render :: "list_state \<Rightarrow> view" where
  "render st =
     (if loading st then LoadingView
      else if error st \<noteq> '''' then ErrorView (error st)
      else if length (bookmarks st) = 0 then EmptyView
      else ListView (bookmarks st))"

section \<open>The mutation entry points\<close>

text \<open>
  Built-ins of the JavaScript runtime that the forms call, taken as parameters:
  whether \<^verbatim>\<open>new URL(s)\<close> returns rather than throws, and \<^verbatim>\<open>String.prototype.trim\<close>.
\<close>

record runtime =
  is_valid_url :: "string \<Rightarrow> bool"
  trim :: "string \<Rightarrow> string"

text \<open>The four \<^verbatim>\<open>useState\<close> cells of \<^verbatim>\<open>AddBookmarkForm\<close> (lines 11-14).\<close>

record form_state =
  title_f :: string
  url_f :: string
  loading_f :: bool
  error_f :: string

text \<open>
  \<^verbatim>\<open>AddBookmarkForm.handleSubmit\<close>, lines 18-63. \<open>onBookmarkAdded\<close> is the callback
  prop; it acts on the state \<open>w\<close> of whoever passed it.
\<close>

definition handleSubmit ::
  "runtime \<Rightarrow> supabase_client \<Rightarrow> ('w \<Rightarrow> 'w) \<Rightarrow> form_state \<times> 'w \<Rightarrow> form_state \<times> 'w" where
  "handleSubmit rt supabase onBookmarkAdded fw =
     (let f = fst fw; w = snd fw;
          f1 = f\<lparr>error_f := '''', loading_f := True\<rparr>
      in if \<not> is_valid_url rt (url_f f) then
           (f1\<lparr>error_f := ''Please enter a valid URL'', loading_f := False\<rparr>, w)
         else case getUser supabase of
           None \<Rightarrow> (f1\<lparr>error_f := ''You must be logged in'', loading_f := False\<rparr>, w)
         | Some u \<Rightarrow>
             (case run_mutation supabase
                     (InsertRow (id_usr u) (trim rt (title_f f)) (trim rt (url_f f))) of
                Some insertError \<Rightarrow>
                  (f1\<lparr>error_f := ''Failed to add bookmark: '' @ message insertError,
                      loading_f := False\<rparr>, w)
              | None \<Rightarrow>
                  (f1\<lparr>title_f := '''', url_f := '''', loading_f := False\<rparr>,
                   onBookmarkAdded w)))"

text \<open>The six \<^verbatim>\<open>useState\<close> cells of \<^verbatim>\<open>BookmarkItem\<close> (lines 19-24).\<close>

record item_state =
  isEditing :: bool
  editTitle :: string
  editUrl :: string
  saving :: bool
  deleting :: bool
  error_i :: string

text \<open>
  \<^verbatim>\<open>BookmarkItem.handleSaveEdit\<close>, lines 42-77. It calls no callback prop: on success
  it ends with the comment \<^verbatim>\<open>// Real-time will handle the UI update\<close>.
\<close>

definition handleSaveEdit ::
  "runtime \<Rightarrow> supabase_client \<Rightarrow> bookmark \<Rightarrow> item_state \<Rightarrow> item_state" where
  "handleSaveEdit rt supabase bookmark it =
     (if trim rt (editTitle it) = '''' \<or> trim rt (editUrl it) = '''' then
        it\<lparr>error_i := ''Title and URL are required''\<rparr>
      else if \<not> is_valid_url rt (editUrl it) then
        it\<lparr>error_i := ''Please enter a valid URL''\<rparr>
      else
        (let it1 = it\<lparr>saving := True, error_i := ''''\<rparr>
         in case run_mutation supabase
                   (UpdateRow (id_bm bookmark) (trim rt (editTitle it)) (trim rt (editUrl it))) of
              Some updateError \<Rightarrow> it1\<lparr>error_i := ''Failed to update bookmark'', saving := False\<rparr>
            | None \<Rightarrow> it1\<lparr>saving := False, isEditing := False\<rparr>))"

text \<open>
  \<^verbatim>\<open>BookmarkItem.handleDelete\<close>, lines 79-99. \<open>confirmed\<close> is the answer to the
  \<^verbatim>\<open>confirm(...)\<close> dialog; \<open>onDeleted\<close> is the callback prop, called on line 98 after a
  delete without error.
\<close>

definition handleDelete ::
  "bool \<Rightarrow> supabase_client \<Rightarrow> bookmark \<Rightarrow> ('w \<Rightarrow> 'w) \<Rightarrow> item_state \<times> 'w \<Rightarrow> item_state \<times> 'w" where
  "handleDelete confirmed supabase bookmark onDeleted iw =
     (let it = fst iw; w = snd iw
      in if \<not> confirmed then (it, w)
         else
           (let it1 = it\<lparr>deleting := True\<rparr>
            in case run_mutation supabase (DeleteRow (id_bm bookmark)) of
                 Some e \<Rightarrow> (it1\<lparr>deleting := False\<rparr>, w)
               | None \<Rightarrow> (it1, onDeleted w)))"

text \<open>
  The wiring of the dashboard. \<^verbatim>\<open>DashboardPage\<close> renders
  \<^verbatim>\<open><AddBookmarkForm onBookmarkAdded={() => { }} />\<close> beside \<^verbatim>\<open><BookmarkList />\<close>, and
  \<^verbatim>\<open>BookmarkList\<close> (lines 171-177) renders each record as
  \<^verbatim>\<open><BookmarkItem key={bookmark.id} bookmark={bookmark} onDeleted={fetchBookmarks} />\<close>.
  The state of the page is the state of the list, of the form and of each item (by key).
\<close>

record dashboard =
  list_st :: list_state
  form_st :: form_state
  item_st :: "string \<Rightarrow> item_state"

datatype user_action =
  SubmitAdd
  | SaveEdit bookmark
  | ClickDelete bookmark bool

fun user_step :: "runtime \<Rightarrow> supabase_client \<Rightarrow> user_action \<Rightarrow> dashboard \<Rightarrow> dashboard" where
  "user_step rt supabase SubmitAdd d =
     (let r = handleSubmit rt supabase (\<lambda>w. w) (form_st d, list_st d)
      in d\<lparr>form_st := fst r, list_st := snd r\<rparr>)"
| "user_step rt supabase (SaveEdit b) d =
     d\<lparr>item_st := (item_st d)(id_bm b := handleSaveEdit rt supabase b (item_st d (id_bm b)))\<rparr>"
| "user_step rt supabase (ClickDelete b confirmed) d =
     (let r = handleDelete confirmed supabase b (fetchBookmarks supabase)
                (item_st d (id_bm b), list_st d)
      in d\<lparr>item_st := (item_st d)(id_bm b := fst r), list_st := snd r\<rparr>)"

section \<open>The subscription effect of \<^verbatim>\<open>BookmarkList\<close>\<close>

text \<open>
  Lines 50-112. The effect starts \<^verbatim>\<open>setupRealtimeSubscription()\<close>, which suspends at
  \<^verbatim>\<open>await supabase.auth.getUser()\<close>, registers \<^verbatim>\<open>.then((ch) => { channel = ch })\<close> on
  the promise it returned and hands React the cleanup closure. JavaScript runs each
  callback to completion, so the effect is a machine with three kinds of step:
  \<^item> \<open>GetUserSettled u\<close>: the awaited call resolves and the rest of
    \<^verbatim>\<open>setupRealtimeSubscription\<close> runs (lines 57-97): with no user it returns
    \<^verbatim>\<open>undefined\<close>; with a user it creates the channel, subscribes it and returns it;
  \<^item> \<open>ThenCallback\<close>: the \<^verbatim>\<open>.then\<close> callback of line 102 runs with the value returned
    and assigns the variable \<^verbatim>\<open>channel\<close>;
  \<^item> \<open>Cleanup\<close>: React runs the closure of lines 106-111 when the view is torn down.
  A step that cannot happen in a state (a promise settling twice, a callback before its
  promise settled) is \<open>None\<close>.
\<close>

record channel =
  topic :: string
  row_filter :: string

record effect_state =
  awaiting_getUser :: bool
  setup_result :: "channel option option"
  then_ran :: bool
  channel_var :: "channel option"
  subscribed :: "channel list"
  removeChannel_calls :: "channel list"

datatype effect_event =
  GetUserSettled "user option"
  | ThenCallback
  | Cleanup

definition effect_mounted :: effect_state where
  "effect_mounted =
     \<lparr>awaiting_getUser = True, setup_result = None, then_ran = False,
      channel_var = None, subscribed = [], removeChannel_calls = []\<rparr>"

fun effect_step :: "effect_event \<Rightarrow> effect_state \<Rightarrow> effect_state option" where
  "effect_step (GetUserSettled None) s =
     (if awaiting_getUser s
      then Some (s\<lparr>awaiting_getUser := False, setup_result := Some None\<rparr>)
      else None)"
| "effect_step (GetUserSettled (Some u)) s =
     (if awaiting_getUser s
      then (let ch = \<lparr>topic = ''bookmarks-realtime'',
                      row_filter = ''user_id=eq.'' @ id_usr u\<rparr>
            in Some (s\<lparr>awaiting_getUser := False,
                       subscribed := subscribed s @ [ch],
                       setup_result := Some (Some ch)\<rparr>))
      else None)"
| "effect_step ThenCallback s =
     (case setup_result s of
        None \<Rightarrow> None
      | Some ch \<Rightarrow>
          if then_ran s then None
          else Some (s\<lparr>channel_var := ch, then_ran := True\<rparr>))"
| "effect_step Cleanup s =
     (case channel_var s of
        None \<Rightarrow> Some s
      | Some ch \<Rightarrow>
          Some (s\<lparr>removeChannel_calls := removeChannel_calls s @ [ch],
                  subscribed := removeAll ch (subscribed s)\<rparr>))"

fun effect_run :: "effect_event list \<Rightarrow> effect_state \<Rightarrow> effect_state option" where
  "effect_run [] s = Some s"
| "effect_run (e # es) s =
     (case effect_step e s of None \<Rightarrow> None | Some s' \<Rightarrow> effect_run es s')"

text \<open>Concrete inputs used by the examples below.\<close>

definition user1 :: user where
  "user1 = \<lparr>id_usr = ''u1''\<rparr>"

definition channel1 :: channel where
  "channel1 = \<lparr>topic = ''bookmarks-realtime'', row_filter = ''user_id=eq.u1''\<rparr>"

definition client_signed_out :: supabase_client where
  "client_signed_out =
     \<lparr>getUser = None,
      run_query = (\<lambda>q. \<lparr>data = None, fetchError = None\<rparr>),
      run_mutation = (\<lambda>m. None)\<rparr>"

definition client_query_fails :: supabase_client where
  "client_query_fails =
     \<lparr>getUser = Some user1,
      run_query = (\<lambda>q. \<lparr>data = None, fetchError = Some \<lparr>message = ''timeout''\<rparr>\<rparr>),
      run_mutation = (\<lambda>m. None)\<rparr>"

definition client_two_rows :: supabase_client where
  "client_two_rows =
     \<lparr>getUser = Some user1,
      run_query = (\<lambda>q. if q = bookmarks_query user1
                         then \<lparr>data = Some [bm ''1'' ''A'', bm ''2'' ''B''], fetchError = None\<rparr>
                         else \<lparr>data = Some [], fetchError = None\<rparr>),
      run_mutation = (\<lambda>m. None)\<rparr>"

definition client_one_row :: supabase_client where
  "client_one_row =
     \<lparr>getUser = Some user1,
      run_query = (\<lambda>q. \<lparr>data = Some [bm ''1'' ''A''], fetchError = None\<rparr>),
      run_mutation = (\<lambda>m. None)\<rparr>"

definition list_state0 :: list_state where
  "list_state0 = \<lparr>bookmarks = [bm ''1'' ''A'', bm ''2'' ''B''], loading = False, error = ''''\<rparr>"

definition runtime0 :: runtime where
  "runtime0 = \<lparr>is_valid_url = (\<lambda>s. s \<noteq> ''''), trim = (\<lambda>s. s)\<rparr>"

definition dashboard0 :: dashboard where
  "dashboard0 =
     \<lparr>list_st = list_state0,
      form_st = \<lparr>title_f = ''C'', url_f = ''https://c.example'', loading_f = False,
                 error_f = ''''\<rparr>,
      item_st = (\<lambda>k. \<lparr>isEditing = False, editTitle = ''A2'', editUrl = ''https://a.example'',
                        saving = False, deleting = False, error_i = ''''\<rparr>)\<rparr>"

section \<open>Properties of the change handler\<close>

lemma applyAdded_present:
  "list_ex (\<lambda>b. id_bm b = id_bm r) s \<Longrightarrow> applyAdded r s = s"
  by (simp add: applyAdded_def)

lemma applyAdded_absent:
  "\<not> list_ex (\<lambda>b. id_bm b = id_bm r) s \<Longrightarrow> applyAdded r s = r # s"
  by (simp add: applyAdded_def)

lemma ids_applyReplaced: "map id_bm (applyReplaced r s) = map id_bm s"
  by (induction s) (simp_all add: applyReplaced_def)

lemma ids_applyRemoved: "map id_bm (applyRemoved i s) = filter (\<lambda>x. x \<noteq> i) (map id_bm s)"
  by (induction s) (simp_all add: applyRemoved_def)

lemma distinct_applyAdded:
  "distinct (map id_bm s) \<Longrightarrow> distinct (map id_bm (applyAdded r s))"
  by (auto simp: applyAdded_def list_ex_iff)

lemma distinct_on_postgres_changes:
  "distinct (map id_bm s) \<Longrightarrow> distinct (map id_bm (on_postgres_changes p s))"
  by (cases p) (simp_all add: distinct_applyAdded ids_applyRemoved ids_applyReplaced)

text \<open>
  C1. Starting from a held sequence whose ids are pairwise distinct, every sequence of
  INSERT, UPDATE and DELETE events leaves a held sequence whose ids are pairwise distinct.
\<close>

theorem deliver_unique_ids:
  "distinct (map id_bm s) \<Longrightarrow> distinct (map id_bm (deliver events s))"
  unfolding deliver_def
proof (induction events arbitrary: s)
  case Nil
  then show ?case by simp
next
  case (Cons p ps)
  from Cons.prems have "distinct (map id_bm (on_postgres_changes p s))"
    by (rule distinct_on_postgres_changes)
  then show ?case using Cons.IH by simp
qed

theorem deliver_unique_ids_witness:
  "distinct (map id_bm [bm ''1'' ''A'', bm ''2'' ''B''])
   \<and> distinct (map id_bm
        (deliver [INSERT (bm ''3'' ''C''), INSERT (bm ''1'' ''A again''),
                  UPDATE (bm ''1'' ''A2''), DELETE ''2'', INSERT (bm ''3'' ''C'')]
           [bm ''1'' ''A'', bm ''2'' ''B'']))"
proof -
  have h: "distinct (map id_bm [bm ''1'' ''A'', bm ''2'' ''B''])"
    by (simp add: bm_def)
  from deliver_unique_ids [OF h] h show ?thesis by blast
qed

text \<open>
  C5. The INSERT updater is idempotent: applying it twice with the same record gives
  what applying it once gives; and when a record with the same id is already held, it
  returns the held sequence as it is.
\<close>

theorem applyAdded_idempotent:
  "applyAdded r (applyAdded r s) = applyAdded r s
   \<and> (id_bm r \<in> id_bm ` set s \<longrightarrow> applyAdded r s = s)"
  by (auto simp: applyAdded_def list_ex_iff)

theorem applyAdded_idempotent_witness:
  "id_bm (bm ''1'' ''A'') \<in> id_bm ` set [bm ''1'' ''A'', bm ''2'' ''B'']
   \<and> applyAdded (bm ''1'' ''A'') [bm ''1'' ''A'', bm ''2'' ''B'']
       = [bm ''1'' ''A'', bm ''2'' ''B'']
   \<and> applyAdded (bm ''3'' ''C'') (applyAdded (bm ''3'' ''C'') [bm ''1'' ''A''])
       = [bm ''3'' ''C'', bm ''1'' ''A'']"
proof -
  have h: "id_bm (bm ''1'' ''A'') \<in> id_bm ` set [bm ''1'' ''A'', bm ''2'' ''B'']"
    by (simp add: bm_def)
  have once: "applyAdded (bm ''3'' ''C'') [bm ''1'' ''A''] = [bm ''3'' ''C'', bm ''1'' ''A'']"
    by (simp add: applyAdded_def bm_def)
  from applyAdded_idempotent [of "bm ''1'' ''A''" "[bm ''1'' ''A'', bm ''2'' ''B'']"]
       applyAdded_idempotent [of "bm ''3'' ''C''" "[bm ''1'' ''A'']"] h once
  show ?thesis by simp
qed

text \<open>
  C6. When no held record has the id of the new record, the INSERT updater puts the
  new record at the front and keeps the held records behind it, in their order; the
  value of \<open>created_at\<close> plays no part.
\<close>

theorem applyAdded_prepends:
  "id_bm r \<notin> id_bm ` set s \<Longrightarrow> applyAdded r s = r # s"
proof (rule applyAdded_absent)
  assume absent: "id_bm r \<notin> id_bm ` set s"
  show "\<not> list_ex (\<lambda>b. id_bm b = id_bm r) s"
  proof
    assume "list_ex (\<lambda>b. id_bm b = id_bm r) s"
    then obtain b where "b \<in> set s" and "id_bm b = id_bm r"
      by (auto simp: list_ex_iff)
    then have "id_bm r \<in> id_bm ` set s"
      by (metis imageI)
    with absent show False by contradiction
  qed
qed

theorem applyAdded_prepends_witness:
  "id_bm (bm ''3'' ''C'') \<notin> id_bm ` set [bm ''1'' ''A'', bm ''2'' ''B'']
   \<and> map id_bm (applyAdded (bm ''3'' ''C'') [bm ''1'' ''A'', bm ''2'' ''B''])
       = [''3'', ''1'', ''2'']"
proof -
  have h: "id_bm (bm ''3'' ''C'') \<notin> id_bm ` set [bm ''1'' ''A'', bm ''2'' ''B'']"
    by (simp add: bm_def)
  from applyAdded_prepends [OF h] h show ?thesis by (simp add: bm_def)
qed

text \<open>
  C10. When a held record has the id of the incoming record, the INSERT updater returns
  the held sequence itself, whatever the other fields of the incoming record are: the
  held record stays and the payload is dropped.
\<close>

theorem applyAdded_held_record_wins:
  "b \<in> set s \<Longrightarrow> id_bm b = id_bm r \<Longrightarrow>
     applyAdded r s = s \<and> (r \<notin> set s \<longrightarrow> r \<notin> set (applyAdded r s))"
proof -
  assume "b \<in> set s" and "id_bm b = id_bm r"
  then have "list_ex (\<lambda>b. id_bm b = id_bm r) s"
    by (auto simp: list_ex_iff)
  then have "applyAdded r s = s"
    by (rule applyAdded_present)
  then show ?thesis by simp
qed

theorem applyAdded_held_record_wins_witness:
  "bm ''1'' ''A'' \<in> set [bm ''1'' ''A'', bm ''2'' ''B'']
   \<and> id_bm (bm ''1'' ''A'')
       = id_bm \<lparr>id_bm = ''1'', user_id = ''u1'', title = ''Z'', url = ''https://z.example'',
               created_at = ''2025-06-30''\<rparr>
   \<and> \<lparr>id_bm = ''1'', user_id = ''u1'', title = ''Z'', url = ''https://z.example'',
       created_at = ''2025-06-30''\<rparr> \<notin> set [bm ''1'' ''A'', bm ''2'' ''B'']
   \<and> map title
        (applyAdded \<lparr>id_bm = ''1'', user_id = ''u1'', title = ''Z'', url = ''https://z.example'',
                     created_at = ''2025-06-30''\<rparr> [bm ''1'' ''A'', bm ''2'' ''B''])
       = [''A'', ''B'']"
proof -
  let ?r = "\<lparr>id_bm = ''1'', user_id = ''u1'', title = ''Z'', url = ''https://z.example'',
             created_at = ''2025-06-30''\<rparr>"
  have h1: "bm ''1'' ''A'' \<in> set [bm ''1'' ''A'', bm ''2'' ''B'']"
    by simp
  have h2: "id_bm (bm ''1'' ''A'') = id_bm ?r"
    by (simp add: bm_def)
  have h3: "?r \<notin> set [bm ''1'' ''A'', bm ''2'' ''B'']"
    by (simp add: bm_def)
  from applyAdded_held_record_wins [OF h1 h2] h1 h2 h3 show ?thesis
    by (simp add: bm_def)
qed

text \<open>
  C7. The UPDATE updater keeps the length of the held sequence; at every position it
  leaves the held record when its id differs from the incoming one and puts the incoming
  record there (so its title and url are the incoming ones) when the ids agree; the
  column of ids is the same before and after; and when no held record has the incoming
  id the held sequence is returned unchanged.
\<close>

theorem applyReplaced_in_place:
  "length (applyReplaced r s) = length s
   \<and> (\<forall>i<length s. applyReplaced r s ! i = (if id_bm (s ! i) = id_bm r then r else s ! i))
   \<and> map id_bm (applyReplaced r s) = map id_bm s
   \<and> (id_bm r \<notin> id_bm ` set s \<longrightarrow> applyReplaced r s = s)"
proof (intro conjI)
  show "length (applyReplaced r s) = length s"
    by (simp add: applyReplaced_def)
  show "\<forall>i<length s. applyReplaced r s ! i = (if id_bm (s ! i) = id_bm r then r else s ! i)"
    by (simp add: applyReplaced_def)
  show "map id_bm (applyReplaced r s) = map id_bm s"
    by (rule ids_applyReplaced)
  show "id_bm r \<notin> id_bm ` set s \<longrightarrow> applyReplaced r s = s"
  proof
    assume absent: "id_bm r \<notin> id_bm ` set s"
    have "\<And>b. b \<in> set s \<Longrightarrow> (if id_bm b = id_bm r then r else b) = b"
      using absent by (metis imageI)
    then show "applyReplaced r s = s"
      unfolding applyReplaced_def by (simp add: map_idI)
  qed
qed

theorem applyReplaced_in_place_witness:
  "(1::nat) < length [bm ''3'' ''C'', bm ''1'' ''A'', bm ''2'' ''B'']
   \<and> applyReplaced (bm ''1'' ''A2'') [bm ''3'' ''C'', bm ''1'' ''A'', bm ''2'' ''B''] ! 1
       = bm ''1'' ''A2''
   \<and> map title (applyReplaced (bm ''1'' ''A2'') [bm ''3'' ''C'', bm ''1'' ''A'', bm ''2'' ''B''])
       = [''C'', ''A2'', ''B'']
   \<and> id_bm (bm ''9'' ''X'') \<notin> id_bm ` set [bm ''3'' ''C'', bm ''1'' ''A'', bm ''2'' ''B'']
   \<and> applyReplaced (bm ''9'' ''X'') [bm ''3'' ''C'', bm ''1'' ''A'', bm ''2'' ''B'']
       = [bm ''3'' ''C'', bm ''1'' ''A'', bm ''2'' ''B'']"
proof -
  let ?s = "[bm ''3'' ''C'', bm ''1'' ''A'', bm ''2'' ''B'']"
  have h1: "(1::nat) < length ?s"
    by simp
  have h2: "id_bm (bm ''9'' ''X'') \<notin> id_bm ` set ?s"
    by (simp add: bm_def)
  have titles: "map title (applyReplaced (bm ''1'' ''A2'') ?s) = [''C'', ''A2'', ''B'']"
    by (simp add: applyReplaced_def bm_def)
  from applyReplaced_in_place [of "bm ''1'' ''A2''" ?s]
  have "applyReplaced (bm ''1'' ''A2'') ?s ! 1
          = (if id_bm (?s ! 1) = id_bm (bm ''1'' ''A2'') then bm ''1'' ''A2'' else ?s ! 1)"
    using h1 by blast
  then have at1: "applyReplaced (bm ''1'' ''A2'') ?s ! 1 = bm ''1'' ''A2''"
    by (simp add: bm_def)
  from applyReplaced_in_place [of "bm ''9'' ''X''" ?s] h2
  have same: "applyReplaced (bm ''9'' ''X'') ?s = ?s"
    by blast
  from h1 at1 titles h2 same show ?thesis by blast
qed

text \<open>
  C8. The DELETE updater leaves no record with the deleted id; what it returns is a
  subsequence of the held sequence (the order of the remaining records is the held
  order) that still has every held record of another id; when no held record has the
  id, the held sequence is returned unchanged; and when exactly the record \<open>b\<close> between
  \<open>xs\<close> and \<open>ys\<close> has the id, the result is \<open>xs\<close> followed by \<open>ys\<close>.
\<close>

theorem applyRemoved_removes:
  "i \<notin> id_bm ` set (applyRemoved i s)
   \<and> subseq (applyRemoved i s) s
   \<and> (\<forall>b\<in>set s. id_bm b \<noteq> i \<longrightarrow> b \<in> set (applyRemoved i s))
   \<and> (i \<notin> id_bm ` set s \<longrightarrow> applyRemoved i s = s)
   \<and> (s = xs @ b # ys \<and> id_bm b = i \<and> i \<notin> id_bm ` set xs \<and> i \<notin> id_bm ` set ys
        \<longrightarrow> applyRemoved i s = xs @ ys)"
proof (intro conjI)
  show "i \<notin> id_bm ` set (applyRemoved i s)"
    by (auto simp: applyRemoved_def)
  show "subseq (applyRemoved i s) s"
    by (simp add: applyRemoved_def)
  show "\<forall>b\<in>set s. id_bm b \<noteq> i \<longrightarrow> b \<in> set (applyRemoved i s)"
    by (simp add: applyRemoved_def)
  have keep: "filter (\<lambda>b. id_bm b \<noteq> i) zs = zs" if "i \<notin> id_bm ` set zs" for zs
  proof (rule filter_True)
    show "\<forall>x\<in>set zs. id_bm x \<noteq> i"
      using that by (metis imageI)
  qed
  show "i \<notin> id_bm ` set s \<longrightarrow> applyRemoved i s = s"
    by (simp add: applyRemoved_def keep)
  show "s = xs @ b # ys \<and> id_bm b = i \<and> i \<notin> id_bm ` set xs \<and> i \<notin> id_bm ` set ys
          \<longrightarrow> applyRemoved i s = xs @ ys"
    by (simp add: applyRemoved_def keep)
qed

theorem applyRemoved_removes_witness:
  "[bm ''3'' ''C'', bm ''1'' ''A'', bm ''2'' ''B''] = [bm ''3'' ''C'', bm ''1'' ''A''] @ bm ''2'' ''B'' # []
   \<and> id_bm (bm ''2'' ''B'') = ''2''
   \<and> ''2'' \<notin> id_bm ` set [bm ''3'' ''C'', bm ''1'' ''A'']
   \<and> ''2'' \<notin> id_bm ` set ([] :: bookmark list)
   \<and> applyRemoved ''2'' [bm ''3'' ''C'', bm ''1'' ''A'', bm ''2'' ''B'']
       = [bm ''3'' ''C'', bm ''1'' ''A'']
   \<and> ''9'' \<notin> id_bm ` set [bm ''3'' ''C'', bm ''1'' ''A'']
   \<and> applyRemoved ''9'' [bm ''3'' ''C'', bm ''1'' ''A''] = [bm ''3'' ''C'', bm ''1'' ''A'']"
proof -
  let ?s = "[bm ''3'' ''C'', bm ''1'' ''A'', bm ''2'' ''B'']"
  let ?xs = "[bm ''3'' ''C'', bm ''1'' ''A'']"
  note at2 = applyRemoved_removes [of "''2''" ?s ?xs "bm ''2'' ''B''" "[]"]
  note at9 = applyRemoved_removes [of "''9''" ?xs "[]" "bm ''9'' ''X''" "[]"]
  have hyp: "?s = ?xs @ bm ''2'' ''B'' # [] \<and> id_bm (bm ''2'' ''B'') = ''2''
             \<and> ''2'' \<notin> id_bm ` set ?xs \<and> ''2'' \<notin> id_bm ` set ([] :: bookmark list)"
    by (simp add: bm_def)
  from at2 have "?s = ?xs @ bm ''2'' ''B'' # [] \<and> id_bm (bm ''2'' ''B'') = ''2''
             \<and> ''2'' \<notin> id_bm ` set ?xs \<and> ''2'' \<notin> id_bm ` set ([] :: bookmark list)
             \<longrightarrow> applyRemoved ''2'' ?s = ?xs @ []"
    by (elim conjE)
  with hyp have "applyRemoved ''2'' ?s = ?xs @ []"
    by (rule rev_mp)
  then have removed: "applyRemoved ''2'' ?s = ?xs"
    by simp
  have h9: "''9'' \<notin> id_bm ` set ?xs"
    by (simp add: bm_def)
  from at9 have "''9'' \<notin> id_bm ` set ?xs \<longrightarrow> applyRemoved ''9'' ?xs = ?xs"
    by (elim conjE)
  with h9 have same: "applyRemoved ''9'' ?xs = ?xs"
    by (rule rev_mp)
  from hyp removed h9 same show ?thesis
    by (intro conjI) (elim conjE, assumption)+
qed

section \<open>Properties of the initial load\<close>

lemma fetchBookmarks_no_user:
  "getUser c = None \<Longrightarrow>
     fetchBookmarks c st = st\<lparr>loading := False, error := ''Not authenticated''\<rparr>"
  by (simp add: fetchBookmarks_def)

lemma fetchBookmarks_query_error:
  "getUser c = Some u \<Longrightarrow> fetchError (run_query c (bookmarks_query u)) = Some e \<Longrightarrow>
     fetchBookmarks c st
       = st\<lparr>loading := False, error := ''Failed to load bookmarks: '' @ message e\<rparr>"
  by (simp add: fetchBookmarks_def)

lemma fetchBookmarks_loaded:
  "getUser c = Some u \<Longrightarrow> fetchError (run_query c (bookmarks_query u)) = None \<Longrightarrow>
     fetchBookmarks c st
       = st\<lparr>loading := False, error := '''',
            bookmarks := (case data (run_query c (bookmarks_query u)) of
                            None \<Rightarrow> [] | Some d \<Rightarrow> d)\<rparr>"
  by (simp add: fetchBookmarks_def)

text \<open>
  C2. With no identity the load ends with the error text \<open>Not authenticated\<close>; when the
  query answers with an error it ends with \<open>Failed to load bookmarks: \<close> followed by the
  message of that error. In both cases the held sequence is the one held before, the
  loading flag is off and the list renders the error view with that text (the view
  that carries the Retry button); and a later load with an identity and a query that
  succeeds, as the Retry button starts, clears the error and holds the rows returned.
\<close>

theorem fetchBookmarks_failure:
  "(getUser c = None \<longrightarrow>
      bookmarks (fetchBookmarks c st) = bookmarks st
      \<and> error (fetchBookmarks c st) = ''Not authenticated''
      \<and> \<not> loading (fetchBookmarks c st)
      \<and> render (fetchBookmarks c st) = ErrorView ''Not authenticated'')
   \<and> (getUser c = Some u \<and> fetchError (run_query c (bookmarks_query u)) = Some e \<longrightarrow>
      bookmarks (fetchBookmarks c st) = bookmarks st
      \<and> error (fetchBookmarks c st) = ''Failed to load bookmarks: '' @ message e
      \<and> \<not> loading (fetchBookmarks c st)
      \<and> render (fetchBookmarks c st) = ErrorView (''Failed to load bookmarks: '' @ message e))
   \<and> (getUser c' = Some u' \<and> run_query c' (bookmarks_query u') = \<lparr>data = Some d, fetchError = None\<rparr> \<longrightarrow>
      bookmarks (fetchBookmarks c' (fetchBookmarks c st)) = d
      \<and> error (fetchBookmarks c' (fetchBookmarks c st)) = ''''
      \<and> \<not> loading (fetchBookmarks c' (fetchBookmarks c st)))"
proof (intro conjI impI)
  assume "getUser c = None"
  then have eq: "fetchBookmarks c st = st\<lparr>loading := False, error := ''Not authenticated''\<rparr>"
    by (rule fetchBookmarks_no_user)
  show "bookmarks (fetchBookmarks c st) = bookmarks st"
    by (simp add: eq)
  show "error (fetchBookmarks c st) = ''Not authenticated''"
    by (simp add: eq)
  show "\<not> loading (fetchBookmarks c st)"
    by (simp add: eq)
  show "render (fetchBookmarks c st) = ErrorView ''Not authenticated''"
    by (simp add: eq render_def)
next
  assume "getUser c = Some u \<and> fetchError (run_query c (bookmarks_query u)) = Some e"
  then have eq: "fetchBookmarks c st
                   = st\<lparr>loading := False, error := ''Failed to load bookmarks: '' @ message e\<rparr>"
    by (simp add: fetchBookmarks_query_error)
  show "bookmarks (fetchBookmarks c st) = bookmarks st"
    by (simp add: eq)
  show "error (fetchBookmarks c st) = ''Failed to load bookmarks: '' @ message e"
    by (simp add: eq)
  show "\<not> loading (fetchBookmarks c st)"
    by (simp add: eq)
  show "render (fetchBookmarks c st) = ErrorView (''Failed to load bookmarks: '' @ message e)"
    by (simp add: eq render_def)
next
  assume retry: "getUser c' = Some u'
                 \<and> run_query c' (bookmarks_query u') = \<lparr>data = Some d, fetchError = None\<rparr>"
  then have eq: "fetchBookmarks c' (fetchBookmarks c st)
                   = (fetchBookmarks c st)\<lparr>loading := False, error := '''', bookmarks := d\<rparr>"
    by (simp add: fetchBookmarks_loaded)
  show "bookmarks (fetchBookmarks c' (fetchBookmarks c st)) = d"
    by (simp add: eq)
  show "error (fetchBookmarks c' (fetchBookmarks c st)) = ''''"
    by (simp add: eq)
  show "\<not> loading (fetchBookmarks c' (fetchBookmarks c st))"
    by (simp add: eq)
qed

theorem fetchBookmarks_failure_witness:
  "getUser client_signed_out = None
   \<and> bookmarks (fetchBookmarks client_signed_out list_state0) = bookmarks list_state0
   \<and> render (fetchBookmarks client_signed_out list_state0) = ErrorView ''Not authenticated''
   \<and> getUser client_query_fails = Some user1
   \<and> fetchError (run_query client_query_fails (bookmarks_query user1))
       = Some \<lparr>message = ''timeout''\<rparr>
   \<and> bookmarks (fetchBookmarks client_query_fails list_state0) = bookmarks list_state0
   \<and> render (fetchBookmarks client_query_fails list_state0)
       = ErrorView ''Failed to load bookmarks: timeout''
   \<and> getUser client_one_row = Some user1
   \<and> run_query client_one_row (bookmarks_query user1)
       = \<lparr>data = Some [bm ''1'' ''A''], fetchError = None\<rparr>
   \<and> bookmarks (fetchBookmarks client_one_row (fetchBookmarks client_query_fails list_state0))
       = [bm ''1'' ''A'']"
proof -
  have h1: "getUser client_signed_out = None"
    by (simp add: client_signed_out_def)
  have h2: "getUser client_query_fails = Some user1
            \<and> fetchError (run_query client_query_fails (bookmarks_query user1))
                = Some \<lparr>message = ''timeout''\<rparr>"
    by (simp add: client_query_fails_def)
  have h3: "getUser client_one_row = Some user1
            \<and> run_query client_one_row (bookmarks_query user1)
                = \<lparr>data = Some [bm ''1'' ''A''], fetchError = None\<rparr>"
    by (simp add: client_one_row_def)
  note a = fetchBookmarks_failure [of client_signed_out list_state0
             user1 "\<lparr>message = ''timeout''\<rparr>" client_one_row user1 "[bm ''1'' ''A'']"]
  note b = fetchBookmarks_failure [of client_query_fails list_state0
             user1 "\<lparr>message = ''timeout''\<rparr>" client_one_row user1 "[bm ''1'' ''A'']"]
  from a h1 have a1: "bookmarks (fetchBookmarks client_signed_out list_state0) = bookmarks list_state0"
    and a2: "render (fetchBookmarks client_signed_out list_state0) = ErrorView ''Not authenticated''"
    by simp_all
  from b h2 have b1: "bookmarks (fetchBookmarks client_query_fails list_state0) = bookmarks list_state0"
    and b2: "render (fetchBookmarks client_query_fails list_state0)
               = ErrorView ''Failed to load bookmarks: timeout''"
    by simp_all
  from b h3 have b3: "bookmarks (fetchBookmarks client_one_row
                        (fetchBookmarks client_query_fails list_state0)) = [bm ''1'' ''A'']"
    by simp
  from h1 a1 a2 h2 b1 b2 h3 b3 show ?thesis
    by simp
qed

text \<open>
  C9. With an identity \<open>u\<close> and a query that answers without error, the load holds
  afterwards exactly what the one query it sends returned, in the order returned
  (nothing when the answer carries no rows), whatever was held before; the query is on
  the table \<open>bookmarks\<close>, restricted to \<open>user_id = u.id\<close> and ordered by \<open>created_at\<close>
  descending. The loading flag is off and the error text is empty.
\<close>

theorem fetchBookmarks_success:
  "getUser c = Some u \<Longrightarrow> fetchError (run_query c (bookmarks_query u)) = None \<Longrightarrow>
     bookmarks (fetchBookmarks c st)
       = (case data (run_query c
                       \<lparr>from_table = ''bookmarks'', select_columns = ''*'',
                        eq_filter = (''user_id'', id_usr u),
                        order_column = ''created_at'', ascending = False\<rparr>) of
            None \<Rightarrow> [] | Some d \<Rightarrow> d)
     \<and> \<not> loading (fetchBookmarks c st)
     \<and> error (fetchBookmarks c st) = ''''
     \<and> render (fetchBookmarks c st)
         = (if bookmarks (fetchBookmarks c st) = [] then EmptyView
            else ListView (bookmarks (fetchBookmarks c st)))"
proof -
  assume "getUser c = Some u" and "fetchError (run_query c (bookmarks_query u)) = None"
  then have eq: "fetchBookmarks c st
       = st\<lparr>loading := False, error := '''',
            bookmarks := (case data (run_query c (bookmarks_query u)) of
                            None \<Rightarrow> [] | Some d \<Rightarrow> d)\<rparr>"
    by (rule fetchBookmarks_loaded)
  show ?thesis
    unfolding eq by (simp add: render_def bookmarks_query_def)
qed

theorem fetchBookmarks_success_witness:
  "getUser client_two_rows = Some user1
   \<and> fetchError (run_query client_two_rows (bookmarks_query user1)) = None
   \<and> map id_bm (bookmarks (fetchBookmarks client_two_rows
        \<lparr>bookmarks = [bm ''9'' ''X''], loading = False, error = ''''\<rparr>)) = [''1'', ''2'']
   \<and> render (fetchBookmarks client_two_rows
        \<lparr>bookmarks = [bm ''9'' ''X''], loading = False, error = ''''\<rparr>)
       = ListView [bm ''1'' ''A'', bm ''2'' ''B'']"
proof -
  have h1: "getUser client_two_rows = Some user1"
    by (simp add: client_two_rows_def)
  have h2: "fetchError (run_query client_two_rows (bookmarks_query user1)) = None"
    by (simp add: client_two_rows_def)
  have q: "run_query client_two_rows
             \<lparr>from_table = ''bookmarks'', select_columns = ''*'',
              eq_filter = (''user_id'', id_usr user1),
              order_column = ''created_at'', ascending = False\<rparr>
           = \<lparr>data = Some [bm ''1'' ''A'', bm ''2'' ''B''], fetchError = None\<rparr>"
    by (simp add: client_two_rows_def bookmarks_query_def)
  from fetchBookmarks_success [OF h1 h2,
         of "\<lparr>bookmarks = [bm ''9'' ''X''], loading = False, error = ''''\<rparr>"]
  have "bookmarks (fetchBookmarks client_two_rows
          \<lparr>bookmarks = [bm ''9'' ''X''], loading = False, error = ''''\<rparr>)
        = [bm ''1'' ''A'', bm ''2'' ''B'']"
    and "render (fetchBookmarks client_two_rows
          \<lparr>bookmarks = [bm ''9'' ''X''], loading = False, error = ''''\<rparr>)
        = ListView [bm ''1'' ''A'', bm ''2'' ''B'']"
    by (simp_all add: q)
  with h1 h2 show ?thesis
    by (simp add: bm_def)
qed

section \<open>Properties of the mutation entry points\<close>

lemma handleSubmit_noop_callback: "snd (handleSubmit rt c (\<lambda>w. w) (f, w)) = w"
  by (simp add: handleSubmit_def Let_def split: option.splits)

lemma handleDelete_parent:
  "snd (handleDelete confirmed c b onDeleted (it, w))
     = (if confirmed \<and> run_mutation c (DeleteRow (id_bm b)) = None then onDeleted w else w)"
  by (simp add: handleDelete_def Let_def split: option.splits)

text \<open>
  C4, as stated, fails on the delete control. The list holds records 1 and 2; the user
  confirms the deletion of record 2 and the delete succeeds; \<open>onDeleted\<close> is
  \<^verbatim>\<open>fetchBookmarks\<close>, whose query now returns record 1 only. The held sequence has
  changed at the end of the click handler, with no event of the change feed handled.
\<close>

theorem delete_changes_held_sequence:
  "bookmarks (list_st (user_step runtime0 client_one_row
                         (ClickDelete (bm ''2'' ''B'') True) dashboard0))
     = [bm ''1'' ''A'']
   \<and> bookmarks (list_st (user_step runtime0 client_one_row
                            (ClickDelete (bm ''2'' ''B'') True) dashboard0))
       \<noteq> bookmarks (list_st dashboard0)"
  by (simp add: handleDelete_def fetchBookmarks_def client_one_row_def dashboard0_def
        list_state0_def user1_def Let_def)

text \<open>
  C4, amended. Submitting the add form and saving an edit leave the state of the list
  (held sequence, loading flag, error text) as it is, whatever the runtime and the
  client answer. A click on delete leaves it as it is when the user declines the
  dialog or the delete answers with an error; after a confirmed delete without error
  the state of the list is the one \<^verbatim>\<open>fetchBookmarks\<close> returns.
\<close>

theorem user_step_list_state:
  "list_st (user_step rt c SubmitAdd d) = list_st d
   \<and> list_st (user_step rt c (SaveEdit b) d) = list_st d
   \<and> list_st (user_step rt c (ClickDelete b confirmed) d)
       = (if confirmed \<and> run_mutation c (DeleteRow (id_bm b)) = None
          then fetchBookmarks c (list_st d) else list_st d)"
proof (intro conjI)
  show "list_st (user_step rt c SubmitAdd d) = list_st d"
    by (simp add: Let_def handleSubmit_noop_callback)
  show "list_st (user_step rt c (SaveEdit b) d) = list_st d"
    by simp
  show "list_st (user_step rt c (ClickDelete b confirmed) d)
          = (if confirmed \<and> run_mutation c (DeleteRow (id_bm b)) = None
             then fetchBookmarks c (list_st d) else list_st d)"
    by (simp add: Let_def handleDelete_parent)
qed

theorem user_step_list_state_witness:
  "list_st (user_step runtime0 client_one_row SubmitAdd dashboard0) = list_state0
   \<and> list_st (user_step runtime0 client_one_row (SaveEdit (bm ''1'' ''A'')) dashboard0)
       = list_state0
   \<and> list_st (user_step runtime0 client_one_row (ClickDelete (bm ''2'' ''B'') False) dashboard0)
       = list_state0
   \<and> list_st (user_step runtime0 client_one_row (ClickDelete (bm ''2'' ''B'') True) dashboard0)
       = fetchBookmarks client_one_row list_state0"
proof -
  have l: "list_st dashboard0 = list_state0"
    by (simp add: dashboard0_def)
  have m: "run_mutation client_one_row (DeleteRow (id_bm (bm ''2'' ''B''))) = None"
    by (simp add: client_one_row_def)
  from user_step_list_state [of runtime0 client_one_row dashboard0 "bm ''1'' ''A''" False]
       user_step_list_state [of runtime0 client_one_row dashboard0 "bm ''2'' ''B''" False]
       user_step_list_state [of runtime0 client_one_row dashboard0 "bm ''2'' ''B''" True]
  show ?thesis
    by (simp add: l m)
qed

section \<open>Properties of the subscription effect\<close>

text \<open>
  Teardown after the subscription is established and assigned: \<^verbatim>\<open>removeChannel\<close> is
  called once, with the channel, and no subscription is left.
\<close>

lemma effect_teardown_after_assignment:
  "effect_run [GetUserSettled (Some user1), ThenCallback, Cleanup] effect_mounted
     = Some \<lparr>awaiting_getUser = False, setup_result = Some (Some channel1), then_ran = True,
             channel_var = Some channel1, subscribed = [],
             removeChannel_calls = [channel1]\<rparr>"
  by (simp add: effect_mounted_def user1_def channel1_def Let_def)

text \<open>
  Teardown when no subscription is ever established (no identity, or teardown before
  anything settled): the cleanup calls nothing.
\<close>

lemma effect_teardown_without_subscription:
  "effect_run [GetUserSettled None, ThenCallback, Cleanup] effect_mounted
     = Some \<lparr>awaiting_getUser = False, setup_result = Some None, then_ran = True,
             channel_var = None, subscribed = [], removeChannel_calls = []\<rparr>"
  "effect_run [Cleanup] effect_mounted = Some effect_mounted"
  by (simp_all add: effect_mounted_def)

text \<open>
  C3. The view is torn down while \<^verbatim>\<open>getUser\<close> is still pending; then \<^verbatim>\<open>getUser\<close>
  resolves with a user. The cleanup found the variable \<^verbatim>\<open>channel\<close> unassigned and called
  nothing; the rest of \<^verbatim>\<open>setupRealtimeSubscription\<close> then subscribed the channel. At the
  end the channel is subscribed and \<^verbatim>\<open>removeChannel\<close> has never been called. The same
  holds when the teardown falls between the subscription and the \<^verbatim>\<open>.then\<close> callback.
\<close>

theorem effect_teardown_during_setup_leaks:
  "effect_run [Cleanup, GetUserSettled (Some user1), ThenCallback] effect_mounted
     = Some \<lparr>awaiting_getUser = False, setup_result = Some (Some channel1), then_ran = True,
             channel_var = Some channel1, subscribed = [channel1],
             removeChannel_calls = []\<rparr>
   \<and> effect_run [GetUserSettled (Some user1), Cleanup, ThenCallback] effect_mounted
     = Some \<lparr>awaiting_getUser = False, setup_result = Some (Some channel1), then_ran = True,
             channel_var = Some channel1, subscribed = [channel1],
             removeChannel_calls = []\<rparr>"
  by (simp add: effect_mounted_def user1_def channel1_def Let_def)

end
